theory Spec2Isabelle
  imports Complex_Main "HOL-Library.Log_Nat" "HOL-Library.Sublist"
begin

section \<open>Transport types and connection status (types/session, config.ts)\<close>

datatype TransportType = Websocket | Sse | Polling

datatype ConnectionStatus = Connecting | Open | Closed | Error

section \<open>Numbers of the platform\<close>

text \<open>
  Every number of the program is an IEEE 754 double, and every arithmetic operation
  returns the double nearest to the exact result, ties going to the even significand.
  \<open>roundDouble\<close> is that rounding on the finite range: a double is an integer of at most
  53 bits times a power of two whose exponent is at least -1074. \<open>binade x\<close> is the
  exponent of the largest power of two that does not exceed the positive number \<open>x\<close>, and
  \<open>ulpExponent x\<close> the exponent of the spacing of the doubles around \<open>x\<close>. Results whose
  magnitude reaches 2 to the power 1024, where the platform returns an infinity, are outside the
  model.
\<close>

definition roundHalfEven :: "real \<Rightarrow> int" where
  "roundHalfEven q =
     (let f = \<lfloor>q\<rfloor> in
      if q - of_int f < 1 / 2 then f
      else if 1 / 2 < q - of_int f then f + 1
      else if even f then f else f + 1)"

definition binade :: "real \<Rightarrow> int" where
  "binade x = (if 1 \<le> x then bitlen \<lfloor>x\<rfloor> - 1 else - bitlen (\<lceil>1 / x\<rceil> - 1))"

definition ulpExponent :: "real \<Rightarrow> int" where
  "ulpExponent x = max (binade x - 52) (- 1074)"

text \<open>The power of two with an integer exponent.\<close>

definition twoPower :: "int \<Rightarrow> real" where
  "twoPower e = 2 powi e"

definition roundPositive :: "real \<Rightarrow> real" where
  "roundPositive x =
     (let spacing = twoPower (ulpExponent x) in of_int (roundHalfEven (x / spacing)) * spacing)"

definition roundDouble :: "real \<Rightarrow> real" where
  "roundDouble x =
     (if x = 0 then 0 else if 0 < x then roundPositive x else - roundPositive (- x))"

text \<open>The finite doubles.\<close>

definition isDouble :: "real \<Rightarrow> bool" where
  "isDouble x = (roundDouble x = x \<and> \<bar>x\<bar> < twoPower 1024)"

text \<open>The powers of two are computed by repeated squaring.\<close>

lemma twoPower_code [code]:
  "twoPower e =
     (if e = 0 then 1
      else if e < 0 then 1 / twoPower (- e)
      else (let h = twoPower (e div 2) in if even e then h * h else 2 * h * h))"
proof -
  have pos: "twoPower e = (let h = twoPower (e div 2) in if even e then h * h else 2 * h * h)"
    if "0 < e"
  proof (cases "even e")
    case True
    then obtain k where k: "e = 2 * k" by (elim evenE)
    have "(2::real) powi (k + k) = 2 powi k * 2 powi k" by (rule power_int_add) simp
    then show ?thesis using k True by (simp add: twoPower_def Let_def)
  next
    case False
    then obtain k where k: "e = 2 * k + 1" by (elim oddE)
    have "(2::real) powi (k + k + 1) = 2 powi (k + k) * 2" by (rule power_int_add_1) simp
    also have "(2::real) powi (k + k) = 2 powi k * 2 powi k" by (rule power_int_add) simp
    finally have "(2::real) powi (2 * k + 1) = 2 * (2 powi k * 2 powi k)" by simp
    moreover have "(2 * k + 1) div 2 = k" by simp
    ultimately show ?thesis using k False by (simp add: twoPower_def Let_def)
  qed
  show ?thesis
  proof (cases "e < 0")
    case True
    then show ?thesis by (simp add: twoPower_def power_int_minus_divide)
  next
    case False
    then show ?thesis using pos by (cases "e = 0") (simp_all add: twoPower_def)
  qed
qed

lemma roundPositive_powi:
  "roundPositive x = of_int (roundHalfEven (x / 2 powi ulpExponent x)) * 2 powi ulpExponent x"
  by (simp add: roundPositive_def twoPower_def Let_def)


lemma roundHalfEven_of_int [simp]: "roundHalfEven (of_int n) = n"
  by (simp add: roundHalfEven_def)

lemma roundHalfEven_0 [simp]: "roundHalfEven 0 = 0"
  using roundHalfEven_of_int [of 0] by simp

lemma roundHalfEven_mono:
  assumes le: "q \<le> q'"
  shows "roundHalfEven q \<le> roundHalfEven q'"
proof -
  have fl: "\<lfloor>q\<rfloor> \<le> \<lfloor>q'\<rfloor>" using le by (rule floor_mono)
  have lo: "\<lfloor>q'\<rfloor> \<le> roundHalfEven q'" by (simp add: roundHalfEven_def Let_def)
  have hi: "roundHalfEven q \<le> \<lfloor>q\<rfloor> + 1" by (simp add: roundHalfEven_def Let_def)
  show ?thesis
  proof (cases "\<lfloor>q\<rfloor> = \<lfloor>q'\<rfloor>")
    case True
    then show ?thesis using le by (auto simp: roundHalfEven_def Let_def)
  next
    case False
    then have "\<lfloor>q\<rfloor> + 1 \<le> \<lfloor>q'\<rfloor>" using fl by linarith
    then show ?thesis using lo hi by linarith
  qed
qed


lemma binade_bounds:
  assumes x: "0 < x"
  shows "2 powi binade x \<le> x" and "x < 2 powi (binade x + 1)"
proof -
  have "2 powi binade x \<le> x \<and> x < 2 powi (binade x + 1)"
  proof (cases "1 \<le> x")
    case True
    let ?n = "\<lfloor>x\<rfloor>"
    have n: "0 < ?n" using True by simp
    have k: "0 < bitlen ?n" using n bitlen_eq_zero_iff [of ?n] bitlen_nonneg [of ?n] by linarith
    have b: "2 ^ nat (bitlen ?n - 1) \<le> ?n" "?n < 2 ^ nat (bitlen ?n)"
      using bitlen_bounds [OF n] by simp_all
    have "(2::real) powi (bitlen ?n - 1) = of_int (2 ^ nat (bitlen ?n - 1))"
      using k by (simp add: power_int_nonneg_exp)
    also have "\<dots> \<le> of_int ?n" using b(1) by (simp only: of_int_le_iff)
    also have "\<dots> \<le> x" by simp
    finally have lo: "2 powi (bitlen ?n - 1) \<le> x" .
    have "?n + 1 \<le> 2 ^ nat (bitlen ?n)" using b(2) by simp
    then have "of_int (?n + 1) \<le> (of_int (2 ^ nat (bitlen ?n)) :: real)"
      by (simp only: of_int_le_iff)
    moreover have "x < of_int (?n + 1)" by simp
    moreover have "(2::real) powi (bitlen ?n) = of_int (2 ^ nat (bitlen ?n))"
      using k by (simp add: power_int_nonneg_exp)
    ultimately have "x < 2 powi (bitlen ?n)" by linarith
    then show ?thesis using lo True by (simp add: binade_def)
  next
    case False
    let ?y = "1 / x"
    let ?m = "\<lceil>?y\<rceil>"
    have y: "1 < ?y" using False x by simp
    have m: "0 < ?m - 1" using y by linarith
    let ?k = "bitlen (?m - 1)"
    have k: "0 < ?k" using m bitlen_eq_zero_iff [of "?m - 1"] bitlen_nonneg [of "?m - 1"] by linarith
    have b: "2 ^ nat (?k - 1) \<le> ?m - 1" "?m - 1 < 2 ^ nat ?k"
      using bitlen_bounds [OF m] by simp_all
    have "of_int (2 ^ nat (?k - 1)) \<le> (of_int (?m - 1) :: real)"
      using b(1) by (simp only: of_int_le_iff)
    moreover have "of_int (?m - 1) < ?y" by linarith
    moreover have "(of_int (2 ^ nat (?k - 1)) :: real) = 2 ^ nat (?k - 1)" by simp
    ultimately have ylo: "2 ^ nat (?k - 1) < ?y" by linarith
    have "?m \<le> 2 ^ nat ?k" using b(2) by simp
    then have "of_int ?m \<le> (of_int (2 ^ nat ?k) :: real)" by (simp only: of_int_le_iff)
    moreover have "?y \<le> of_int ?m" by (rule le_of_int_ceiling)
    moreover have "(of_int (2 ^ nat ?k) :: real) = 2 ^ nat ?k" by simp
    ultimately have yhi: "?y \<le> 2 ^ nat ?k" by linarith
    have lo: "1 / 2 ^ nat ?k \<le> x" using yhi x by (simp add: field_simps)
    have hi: "x < 1 / 2 ^ nat (?k - 1)" using ylo x by (simp add: field_simps)
    have e1: "(2::real) powi (- ?k) = 1 / 2 ^ nat ?k"
      using k by (simp add: power_int_minus_divide power_int_nonneg_exp)
    have "(2::real) powi (- ?k + 1) = 2 powi (- (?k - 1))" by simp
    also have "\<dots> = 1 / 2 ^ nat (?k - 1)"
      using k by (simp only: power_int_minus_divide) (simp add: power_int_nonneg_exp)
    finally have e2: "(2::real) powi (- ?k + 1) = 1 / 2 ^ nat (?k - 1)" .
    show ?thesis using lo hi e1 e2 False by (simp add: binade_def)
  qed
  then show "2 powi binade x \<le> x" and "x < 2 powi (binade x + 1)" by simp_all
qed


lemma powi_less_cancel: "(2::real) powi a < 2 powi b \<Longrightarrow> a < b"
  using power_int_increasing [of b a "2::real"] by (cases "a < b") auto

lemma binade_less:
  assumes "0 < x" "x < 2 powi k"
  shows "binade x < k"
  using binade_bounds(1) [OF assms(1)] assms(2) powi_less_cancel [of "binade x" k] by linarith

lemma binade_ge:
  assumes "0 < x" "2 powi k \<le> x"
  shows "k \<le> binade x"
  using binade_bounds(2) [OF assms(1)] assms(2) powi_less_cancel [of k "binade x + 1"] by linarith



lemma ulpExponent_ge: "- 1074 \<le> ulpExponent x"
  by (simp add: ulpExponent_def)

lemma powi_split:
  assumes "e' \<le> e"
  shows "(2::real) powi e = of_int (2 ^ nat (e - e')) * 2 powi e'"
proof -
  have "(2::real) powi e = 2 powi ((e - e') + e')" by simp
  also have "\<dots> = 2 powi (e - e') * 2 powi e'" by (rule power_int_add) simp
  also have "(2::real) powi (e - e') = of_int (2 ^ nat (e - e'))"
    using assms by (simp add: power_int_nonneg_exp)
  finally show ?thesis .
qed

lemma roundPositive_on_grid:
  assumes v: "v = of_int k * 2 powi ulpExponent v"
  shows "roundPositive v = v"
proof -
  have "v / 2 powi ulpExponent v = of_int k"
    using v by (metis nonzero_mult_div_cancel_right power_int_eq_0_iff zero_neq_numeral)
  then have "roundPositive v = of_int k * 2 powi ulpExponent v"
    by (simp add: roundPositive_powi)
  then show ?thesis using v by simp
qed

lemma roundPositive_grid:
  assumes n: "0 \<le> n" "n \<le> 2 ^ 53" and e: "- 1074 \<le> e"
  shows "roundPositive (of_int n * 2 powi e) = of_int n * 2 powi e"
proof (cases "n = 0")
  case True
  then show ?thesis by (simp add: roundPositive_powi)
next
  case False
  let ?v = "of_int n * (2::real) powi e"
  have npos: "0 < n" using False n by simp
  have vpos: "0 < ?v" using npos by simp
  show ?thesis
  proof (cases "n = 2 ^ 53")
    case True
    have v: "?v = 2 powi (e + 53)"
      using True by (simp add: power_int_add)
    have "binade ?v = e + 53"
      using binade_ge [of ?v "e + 53"] binade_less [of ?v "e + 54"] vpos v
        power_int_strict_increasing [of "e + 53" "e + 54" "2::real"]
      by simp
    then have u: "ulpExponent ?v = e + 1" using e by (simp add: ulpExponent_def)
    have "?v = of_int (2 ^ 52) * 2 powi (e + 1)"
      using v by (simp add: power_int_add)
    then have "?v = of_int (2 ^ 52) * 2 powi ulpExponent ?v" using u by simp
    then show ?thesis by (rule roundPositive_on_grid)
  next
    case False
    then have "n < 2 ^ 53" using n by simp
    then have "of_int n < (of_int (2 ^ 53) :: real)" by (simp only: of_int_less_iff)
    then have "?v < 2 ^ 53 * 2 powi e" by simp
    also have "\<dots> = 2 powi (e + 53)" by (simp add: power_int_add)
    finally have "binade ?v < e + 53" using binade_less [OF vpos] by simp
    then have u: "ulpExponent ?v \<le> e" using e by (simp add: ulpExponent_def)
    have "?v = of_int n * (of_int (2 ^ nat (e - ulpExponent ?v)) * 2 powi ulpExponent ?v)"
      using powi_split [OF u] by simp
    then have "?v = of_int (n * 2 ^ nat (e - ulpExponent ?v)) * 2 powi ulpExponent ?v"
      by simp
    then show ?thesis by (rule roundPositive_on_grid)
  qed
qed

lemma roundPositive_form:
  assumes x: "0 < x"
  shows "0 \<le> roundHalfEven (x / 2 powi ulpExponent x)"
    and "roundHalfEven (x / 2 powi ulpExponent x) \<le> 2 ^ 53"
proof -
  let ?e = "ulpExponent x"
  let ?q = "x / 2 powi ?e"
  have "0 \<le> ?q" using x by simp
  then have "roundHalfEven (of_int 0) \<le> roundHalfEven ?q"
    by (intro roundHalfEven_mono) simp
  then show "0 \<le> roundHalfEven ?q" by simp
  have "binade x + 1 \<le> ?e + 53" by (simp add: ulpExponent_def)
  then have "(2::real) powi (binade x + 1) \<le> 2 powi (?e + 53)"
    by (intro power_int_increasing) simp_all
  then have "x < 2 powi (?e + 53)" using binade_bounds(2) [OF x] by linarith
  also have "\<dots> = 2 ^ 53 * 2 powi ?e" by (simp add: power_int_add)
  finally have "?q < 2 ^ 53" by (simp add: field_simps)
  then have "?q \<le> of_int (2 ^ 53)" by simp
  then have "roundHalfEven ?q \<le> roundHalfEven (of_int (2 ^ 53))"
    by (rule roundHalfEven_mono)
  then show "roundHalfEven ?q \<le> 2 ^ 53" by (simp only: roundHalfEven_of_int)
qed

lemma roundPositive_nonneg: "0 < x \<Longrightarrow> 0 \<le> roundPositive x"
  using roundPositive_form(1) [of x] by (simp add: roundPositive_powi)

lemma roundPositive_idem:
  assumes x: "0 < x"
  shows "roundPositive (roundPositive x) = roundPositive x"
  using roundPositive_grid [OF roundPositive_form [OF x] ulpExponent_ge [of x]]
  by (simp add: roundPositive_powi)

lemma roundDouble_0 [simp]: "roundDouble 0 = 0"
  by (simp add: roundDouble_def)

lemma roundDouble_minus: "roundDouble (- x) = - roundDouble x"
  by (simp add: roundDouble_def)

lemma roundDouble_idem [simp]: "roundDouble (roundDouble x) = roundDouble x"
proof -
  have pos: "roundDouble (roundPositive y) = roundPositive y" if "0 < y" for y
  proof (cases "roundPositive y = 0")
    case True
    then show ?thesis by simp
  next
    case False
    then have "0 < roundPositive y" using roundPositive_nonneg [OF that] by simp
    then show ?thesis using roundPositive_idem [OF that] by (simp add: roundDouble_def)
  qed
  show ?thesis
  proof (cases "0 < x")
    case True
    then show ?thesis using pos [of x] by (simp add: roundDouble_def)
  next
    case False
    show ?thesis
    proof (cases "x = 0")
      case True
      then show ?thesis by simp
    next
      case False
      then have "0 < - x" using \<open>\<not> 0 < x\<close> by simp
      then have "roundDouble (- roundPositive (- x)) = - roundPositive (- x)"
        using pos [of "- x"] by (simp only: roundDouble_minus)
      then show ?thesis using False \<open>\<not> 0 < x\<close> by (simp add: roundDouble_def)
    qed
  qed
qed






section \<open>The reconnection controller (hooks/useReconnect.ts)\<close>

subsection \<open>Configuration and state\<close>

record ReconnectConfig =
  initialDelay :: real
  maxDelay :: real
  multiplier :: real
  maxAttempts :: int
  jitter :: bool
  jitterPercent :: real

record ReconnectState =
  isReconnecting :: bool
  attempts :: int
  nextDelay :: real
  countdown :: int
  currentTransport :: TransportType
  maxAttemptsReached :: bool

text \<open>
  \<open>config.performance\<close> reads three of the parameters from the environment and falls
  back to 1000 ms, 30000 ms and 10 attempts. \<open>DEFAULT_CONFIG\<close> adds the fixed multiplier 2
  and the jitter fraction written \<open>0.2\<close>, which denotes the double nearest to 2/10,
  the number 3602879701896397 / 18014398509481984.
\<close>

definition DEFAULT_CONFIG :: ReconnectConfig where
  "DEFAULT_CONFIG =
     \<lparr>initialDelay = 1000, maxDelay = 30000, multiplier = 2, maxAttempts = 10,
      jitter = True, jitterPercent = 3602879701896397 / 18014398509481984\<rparr>"

text \<open>
  A reconnection attempt that the hook has started and whose promise is still pending.
  The timer callback awaits \<open>onReconnect(nextTransport)\<close> and calls
  \<open>scheduleReconnection\<close> when it rejects; \<open>forceReconnect\<close> awaits
  \<open>onReconnect(currentTransport)\<close> and calls \<open>startReconnection\<close> when it rejects.
\<close>

datatype Pending = FromTimer TransportType | FromForce TransportType

text \<open>
  The hook instance: the React state, the two timer references and the attempts in
  flight. \<open>reconnectTimerRef\<close> holds the delay and the transport of the armed timeout
  while it has not fired; \<open>countdownTimerRef\<close> holds the delay the running interval counts
  down from.
\<close>

record Controller =
  state :: ReconnectState
  reconnectTimerRef :: "(real \<times> TransportType) option"
  countdownTimerRef :: "real option"
  inFlight :: "Pending list"

definition initialController :: "ReconnectConfig \<Rightarrow> TransportType \<Rightarrow> Controller" where
  "initialController config transport =
     \<lparr>state = \<lparr>isReconnecting = False, attempts = 0, nextDelay = initialDelay config,
               countdown = 0, currentTransport = transport, maxAttemptsReached = False\<rparr>,
      reconnectTimerRef = None, countdownTimerRef = None, inFlight = []\<rparr>"

subsection \<open>Delay computation and transport rotation\<close>

definition TRANSPORT_FALLBACK_ORDER :: "TransportType list" where
  "TRANSPORT_FALLBACK_ORDER = [Websocket, Sse, Polling]"

text \<open>\<open>Array.prototype.indexOf\<close>: the first position of the element, or -1.\<close>

fun indexOf :: "'a list \<Rightarrow> 'a \<Rightarrow> int" where
  "indexOf [] x = - 1"
| "indexOf (y # ys) x =
     (if y = x then 0 else (let i = indexOf ys x in if i < 0 then - 1 else i + 1))"

definition getNextTransport :: "TransportType \<Rightarrow> TransportType" where
  "getNextTransport current =
     (let currentIndex = indexOf TRANSPORT_FALLBACK_ORDER current;
          nextIndex = (currentIndex + 1) mod int (length TRANSPORT_FALLBACK_ORDER)
      in TRANSPORT_FALLBACK_ORDER ! nat nextIndex)"

text \<open>
  The value the source binds to \<open>baseDelay\<close>: the previous delay times the multiplier,
  rounded to a double and capped at the maximum.
\<close>

definition baseDelay :: "ReconnectConfig \<Rightarrow> real \<Rightarrow> real" where
  "baseDelay config currentDelay =
     min (roundDouble (currentDelay * multiplier config)) (maxDelay config)"

text \<open>
  \<open>calculateNextDelay\<close>; the argument \<open>random\<close> is the value \<open>Math.random()\<close> returns,
  a number in the interval from 0 (included) to 1 (excluded). Each of the five
  operations of the source, two multiplications, a subtraction, a further multiplication
  and an addition, rounds its result to a double before \<open>Math.floor\<close> is taken.
\<close>

definition calculateNextDelay :: "ReconnectConfig \<Rightarrow> real \<Rightarrow> real \<Rightarrow> real" where
  "calculateNextDelay config random currentDelay =
     (if jitter config then
        (let base = baseDelay config currentDelay;
             jitterAmount = roundDouble (base * jitterPercent config);
             jit = roundDouble (jitterAmount * roundDouble (roundDouble (random * 2) - 1))
         in of_int \<lfloor>roundDouble (base + jit)\<rfloor>)
      else baseDelay config currentDelay)"

subsection \<open>Timers\<close>

definition clearTimers :: "Controller \<Rightarrow> Controller" where
  "clearTimers c = c\<lparr>reconnectTimerRef := None, countdownTimerRef := None\<rparr>"

definition startCountdown :: "real \<Rightarrow> Controller \<Rightarrow> Controller" where
  "startCountdown delayMs c =
     c\<lparr>state := (state c)\<lparr>countdown := \<lceil>roundDouble (delayMs / 1000)\<rceil>\<rparr>,
       countdownTimerRef := Some delayMs\<rparr>"

text \<open>One tick of the countdown interval, \<open>elapsed\<close> milliseconds after it was started.\<close>

definition countdownTick :: "real \<Rightarrow> Controller \<Rightarrow> Controller" where
  "countdownTick elapsed c =
     (case countdownTimerRef c of
        None \<Rightarrow> c
      | Some delayMs \<Rightarrow>
          (let remaining = max 0 \<lceil>roundDouble (roundDouble (delayMs - elapsed) / 1000)\<rceil>
           in c\<lparr>state := (state c)\<lparr>countdown := remaining\<rparr>,
                countdownTimerRef := (if remaining = 0 then None else Some delayMs)\<rparr>))"

subsection \<open>The operations of the hook\<close>

definition scheduleReconnection :: "ReconnectConfig \<Rightarrow> real \<Rightarrow> Controller \<Rightarrow> Controller" where
  "scheduleReconnection config random c0 =
     (let c = clearTimers c0; prev = state c in
      if attempts prev \<ge> maxAttempts config then
        c\<lparr>state := prev\<lparr>isReconnecting := False, maxAttemptsReached := True\<rparr>\<rparr>
      else
        (let delay = (if attempts prev = 0 then initialDelay config
                      else calculateNextDelay config random (nextDelay prev));
             nextTransport = getNextTransport (currentTransport prev);
             c1 = startCountdown delay c
         in c1\<lparr>state := (state c1)\<lparr>isReconnecting := True, attempts := attempts prev + 1,
                                    nextDelay := delay, currentTransport := nextTransport\<rparr>,
               reconnectTimerRef := Some (delay, nextTransport)\<rparr>))"

definition startReconnection :: "ReconnectConfig \<Rightarrow> real \<Rightarrow> Controller \<Rightarrow> Controller" where
  "startReconnection config random c =
     scheduleReconnection config random
       (c\<lparr>state := (state c)\<lparr>attempts := 0, nextDelay := initialDelay config,
                             maxAttemptsReached := False\<rparr>\<rparr>)"

definition stopReconnection :: "Controller \<Rightarrow> Controller" where
  "stopReconnection c0 =
     (let c = clearTimers c0 in c\<lparr>state := (state c)\<lparr>isReconnecting := False, countdown := 0\<rparr>\<rparr>)"

definition resetReconnection :: "ReconnectConfig \<Rightarrow> Controller \<Rightarrow> Controller" where
  "resetReconnection config c0 =
     (let c = clearTimers c0
      in c\<lparr>state := (state c)\<lparr>isReconnecting := False, attempts := 0,
                               nextDelay := initialDelay config, countdown := 0,
                               maxAttemptsReached := False\<rparr>\<rparr>)"

text \<open>
  \<open>forceReconnect\<close> up to its \<open>await\<close>: the timers are cleared, the state is reset and
  \<open>onReconnect\<close> is called with \<open>currentTransport\<close>, the transport type the hook was
  given as its argument. The call is recorded as an attempt in flight.
\<close>

definition forceReconnect :: "ReconnectConfig \<Rightarrow> TransportType \<Rightarrow> Controller \<Rightarrow> Controller" where
  "forceReconnect config transportArg c0 =
     (let c = clearTimers c0
      in c\<lparr>state := (state c)\<lparr>isReconnecting := False, attempts := 0,
                               nextDelay := initialDelay config, countdown := 0,
                               maxAttemptsReached := False\<rparr>,
           inFlight := inFlight c @ [FromForce transportArg]\<rparr>)"

text \<open>The armed timeout fires: its callback calls \<open>onReconnect(nextTransport)\<close> and awaits.\<close>

definition timerFires :: "Controller \<Rightarrow> Controller" where
  "timerFires c =
     (case reconnectTimerRef c of
        None \<Rightarrow> c
      | Some (delay, transport) \<Rightarrow>
          c\<lparr>reconnectTimerRef := None, inFlight := inFlight c @ [FromTimer transport]\<rparr>)"

text \<open>
  The promise of the attempt at position \<open>i\<close> settles. A resolved promise ends the
  callback; a rejected one runs the \<open>catch\<close> block of the callback that awaited it.
\<close>

definition attemptResolves :: "nat \<Rightarrow> Controller \<Rightarrow> Controller" where
  "attemptResolves i c =
     (if i < length (inFlight c) then c\<lparr>inFlight := take i (inFlight c) @ drop (Suc i) (inFlight c)\<rparr>
      else c)"

definition attemptRejects :: "ReconnectConfig \<Rightarrow> real \<Rightarrow> nat \<Rightarrow> Controller \<Rightarrow> Controller" where
  "attemptRejects config random i c =
     (if i < length (inFlight c) then
        (let c1 = c\<lparr>inFlight := take i (inFlight c) @ drop (Suc i) (inFlight c)\<rparr>
         in case inFlight c ! i of
              FromTimer transport \<Rightarrow> scheduleReconnection config random c1
            | FromForce transport \<Rightarrow> startReconnection config random c1)
      else c)"

text \<open>
  The two effects of the hook: the transport argument changed, and the connection went
  from not connected to connected.
\<close>

definition transportChanged :: "TransportType \<Rightarrow> Controller \<Rightarrow> Controller" where
  "transportChanged transport c = c\<lparr>state := (state c)\<lparr>currentTransport := transport\<rparr>\<rparr>"

definition becameConnected :: "ReconnectConfig \<Rightarrow> Controller \<Rightarrow> Controller" where
  "becameConnected config c0 =
     (let c = clearTimers c0
      in c\<lparr>state := (state c)\<lparr>isReconnecting := False, attempts := 0,
                               nextDelay := initialDelay config, countdown := 0,
                               maxAttemptsReached := False\<rparr>\<rparr>)"

subsection \<open>Runs of the controller\<close>

datatype HookEvent =
    StartReconnection real
  | StopReconnection
  | ResetReconnection
  | ForceReconnect TransportType
  | TimerFires
  | AttemptResolves nat
  | AttemptRejects real nat
  | CountdownTick real
  | TransportChanged TransportType
  | BecameConnected

fun hookStep :: "ReconnectConfig \<Rightarrow> Controller \<Rightarrow> HookEvent \<Rightarrow> Controller" where
  "hookStep config c (StartReconnection random) = startReconnection config random c"
| "hookStep config c StopReconnection = stopReconnection c"
| "hookStep config c ResetReconnection = resetReconnection config c"
| "hookStep config c (ForceReconnect transport) = forceReconnect config transport c"
| "hookStep config c TimerFires = timerFires c"
| "hookStep config c (AttemptResolves i) = attemptResolves i c"
| "hookStep config c (AttemptRejects random i) = attemptRejects config random i c"
| "hookStep config c (CountdownTick elapsed) = countdownTick elapsed c"
| "hookStep config c (TransportChanged transport) = transportChanged transport c"
| "hookStep config c BecameConnected = becameConnected config c"

definition hookRun :: "ReconnectConfig \<Rightarrow> Controller \<Rightarrow> HookEvent list \<Rightarrow> Controller" where
  "hookRun config c events = foldl (hookStep config) c events"

text \<open>
  A run of consecutively scheduled attempts: every attempt fails and the callback
  schedules the next one. The list holds one random draw per scheduled attempt; the
  result lists the controller after each call of \<open>scheduleReconnection\<close>.
\<close>

fun scheduledRun :: "ReconnectConfig \<Rightarrow> real list \<Rightarrow> Controller \<Rightarrow> Controller list" where
  "scheduledRun config [] c = []"
| "scheduledRun config (random # rs) c =
     (let c' = scheduleReconnection config random c in c' # scheduledRun config rs c')"

definition candidates :: "Controller list \<Rightarrow> TransportType list" where
  "candidates cs = map (\<lambda>c. currentTransport (state c)) cs"

text \<open>
  The transports tried by \<open>n\<close> steps of the rotation, starting after \<open>t\<close>.
\<close>

fun rotation :: "TransportType \<Rightarrow> nat \<Rightarrow> TransportType list" where
  "rotation t 0 = []"
| "rotation t (Suc n) = getNextTransport t # rotation (getNextTransport t) n"

section \<open>Transport rotation\<close>

lemma getNextTransport_simps [simp]:
  "getNextTransport Websocket = Sse"
  "getNextTransport Sse = Polling"
  "getNextTransport Polling = Websocket"
  by (simp_all add: getNextTransport_def TRANSPORT_FALLBACK_ORDER_def)

lemma getNextTransport_thrice: "getNextTransport (getNextTransport (getNextTransport t)) = t"
  by (cases t) simp_all

lemma rotation_count: "n div 3 \<le> count_list (rotation t n) ty"
proof (induction n arbitrary: t rule: less_induct)
  case (less n)
  show ?case
  proof (cases "n < 3")
    case True
    then show ?thesis by simp
  next
    case False
    then obtain m where n: "n = Suc (Suc (Suc m))"
      by (metis less_Suc_eq not_less_eq numeral_3_eq_3 old.nat.exhaust)
    have ih: "m div 3 \<le> count_list (rotation t m) ty"
      using less.IH [of m t] n by simp
    have one: "count_list [getNextTransport t, getNextTransport (getNextTransport t), t] ty = 1"
      by (cases t; cases ty) simp_all
    have "rotation t n = [getNextTransport t, getNextTransport (getNextTransport t), t] @ rotation t m"
      by (simp add: n getNextTransport_thrice)
    then have "count_list (rotation t n) ty
        = count_list [getNextTransport t, getNextTransport (getNextTransport t), t] ty
          + count_list (rotation t m) ty"
      by (simp only: count_list_append)
    then have "count_list (rotation t n) ty = 1 + count_list (rotation t m) ty"
      by (simp only: one)
    moreover have "n div 3 = Suc (m div 3)" using n by simp
    ultimately show ?thesis using ih by simp
  qed
qed

lemma scheduleReconnection_below_max:
  "attempts (state c) < maxAttempts config \<Longrightarrow>
   currentTransport (state (scheduleReconnection config r c)) = getNextTransport (currentTransport (state c))
   \<and> attempts (state (scheduleReconnection config r c)) = attempts (state c) + 1"
  by (simp add: scheduleReconnection_def clearTimers_def startCountdown_def Let_def)

lemma candidates_scheduledRun:
  "attempts (state c) + int (length rs) \<le> maxAttempts config \<Longrightarrow>
   candidates (scheduledRun config rs c) = rotation (currentTransport (state c)) (length rs)"
proof (induction rs arbitrary: c)
  case Nil
  then show ?case by (simp add: candidates_def)
next
  case (Cons r rs)
  let ?c = "scheduleReconnection config r c"
  have lt: "attempts (state c) < maxAttempts config" using Cons.prems by simp
  have "attempts (state ?c) + int (length rs) \<le> maxAttempts config"
    using scheduleReconnection_below_max [OF lt, of r] Cons.prems by simp
  from Cons.IH [OF this] show ?case
    using scheduleReconnection_below_max [OF lt, of r]
    by (simp add: candidates_def Let_def)
qed

text \<open>
  C2. The successor function sends websocket to sse, sse to polling and polling to
  websocket, so three applications return the starting type. In a run of N consecutively
  scheduled attempts (the attempts counter stays within the maximum, so each call really
  schedules) the candidate transports are the rotation that starts at the successor of
  the transport current when the run began, and every transport type occurs at least
  N div 3 times among them.
\<close>

theorem transport_rotation:
  "getNextTransport Websocket = Sse \<and> getNextTransport Sse = Polling
   \<and> getNextTransport Polling = Websocket
   \<and> getNextTransport (getNextTransport (getNextTransport t)) = t
   \<and> (attempts (state c) + int (length rs) \<le> maxAttempts config \<longrightarrow>
        candidates (scheduledRun config rs c) = rotation (currentTransport (state c)) (length rs)
        \<and> (\<forall>ty. length rs div 3 \<le> count_list (candidates (scheduledRun config rs c)) ty))"
  using candidates_scheduledRun [of c rs config] rotation_count getNextTransport_thrice
  by simp

theorem transport_rotation_witness:
  "attempts (state (initialController DEFAULT_CONFIG Websocket)) + int (length [0, 0, 0, 0 :: real])
      \<le> maxAttempts DEFAULT_CONFIG
   \<and> candidates (scheduledRun DEFAULT_CONFIG [0, 0, 0, 0] (initialController DEFAULT_CONFIG Websocket))
        = [Sse, Polling, Websocket, Sse]
   \<and> 1 \<le> count_list (candidates (scheduledRun DEFAULT_CONFIG [0, 0, 0, 0]
              (initialController DEFAULT_CONFIG Websocket))) Polling"
  using transport_rotation [of Websocket "initialController DEFAULT_CONFIG Websocket" "[0, 0, 0, 0]" DEFAULT_CONFIG]
  by (simp add: initialController_def DEFAULT_CONFIG_def)

section \<open>Backoff delays\<close>




text \<open>What \<open>Math.random()\<close> can return: a double from 0 (included) to 1 (excluded).\<close>

definition unitDraw :: "real \<Rightarrow> bool" where
  "unitDraw random = (isDouble random \<and> 0 \<le> random \<and> random < 1)"









lemma DEFAULT_jitterPercent: "jitterPercent DEFAULT_CONFIG = roundDouble (2 / 10)"
  by code_simp
























text \<open>
  The rounding of the platform at work: with the previous delay 1000 and the largest
  draw below 1 the hook returns 2400, where exact arithmetic would give 2399.
\<close>

lemma calculateNextDelay_rounds:
  "calculateNextDelay DEFAULT_CONFIG (1 - 1 / 2 ^ 52) 1000 = 2400
   \<and> unitDraw (1 - 1 / 2 ^ 52)
   \<and> \<lfloor>(2000 :: real) + 2000 * (2 / 10) * ((1 - 1 / 2 ^ 52) * 2 - 1)\<rfloor> = 2399"
  by code_simp









section \<open>Termination of scheduling\<close>

text \<open>The two operations that start a reconnection sequence again.\<close>

definition restarts :: "HookEvent \<Rightarrow> bool" where
  "restarts e = (case e of StartReconnection r \<Rightarrow> True | ForceReconnect t \<Rightarrow> True | _ \<Rightarrow> False)"

definition timerArmed :: "Controller \<Rightarrow> bool" where
  "timerArmed c = (reconnectTimerRef c \<noteq> None)"

lemma scheduleReconnection_at_max:
  "maxAttempts config \<le> attempts (state c) \<Longrightarrow>
   scheduleReconnection config r c =
     c\<lparr>state := (state c)\<lparr>isReconnecting := False, maxAttemptsReached := True\<rparr>,
       reconnectTimerRef := None, countdownTimerRef := None\<rparr>"
  by (simp add: scheduleReconnection_def clearTimers_def Let_def)

lemma quiet_step:
  assumes "reconnectTimerRef c = None" "inFlight c = []" "\<not> restarts e"
  shows "reconnectTimerRef (hookStep config c e) = None \<and> inFlight (hookStep config c e) = []"
  using assms
  by (cases e)
     (simp_all add: restarts_def stopReconnection_def resetReconnection_def timerFires_def
        attemptResolves_def attemptRejects_def countdownTick_def transportChanged_def
        becameConnected_def clearTimers_def Let_def split: option.splits)

lemma quiet_run:
  "reconnectTimerRef c = None \<Longrightarrow> inFlight c = [] \<Longrightarrow> \<forall>e\<in>set events. \<not> restarts e \<Longrightarrow>
   reconnectTimerRef (hookRun config c events) = None \<and> inFlight (hookRun config c events) = []"
proof (induction events arbitrary: c)
  case Nil
  then show ?case by (simp add: hookRun_def)
next
  case (Cons e events)
  have "reconnectTimerRef (hookStep config c e) = None \<and> inFlight (hookStep config c e) = []"
    using quiet_step Cons.prems by simp
  then show ?case using Cons.IH [of "hookStep config c e"] Cons.prems
    by (simp add: hookRun_def)
qed

lemma startReconnection_fresh:
  "0 < maxAttempts config \<Longrightarrow>
   attempts (state (startReconnection config r c)) = 1
   \<and> \<not> maxAttemptsReached (state (startReconnection config r c))
   \<and> isReconnecting (state (startReconnection config r c))
   \<and> reconnectTimerRef (startReconnection config r c)
       = Some (initialDelay config, getNextTransport (currentTransport (state c)))"
  by (simp add: startReconnection_def scheduleReconnection_def clearTimers_def startCountdown_def
      Let_def)

text \<open>
  C3, as amended. When the attempts counter has reached the maximum,
  \<open>scheduleReconnection\<close> sets the max-attempts-reached flag, clears is-reconnecting and
  leaves no timer armed. If no reconnection attempt is in flight at that point, no timer
  is armed by any sequence of events without \<open>startReconnection\<close> and
  \<open>forceReconnect\<close>. \<open>startReconnection\<close> schedules from a state with attempts 0 and the
  flag cleared (so that, with a positive maximum, it ends with attempts 1 and a timer
  armed), and \<open>forceReconnect\<close> leaves attempts 0 and the flag cleared.
\<close>

theorem max_attempts_stops_scheduling:
  "(maxAttempts config \<le> attempts (state c) \<longrightarrow>
      maxAttemptsReached (state (scheduleReconnection config r c))
      \<and> \<not> isReconnecting (state (scheduleReconnection config r c))
      \<and> \<not> timerArmed (scheduleReconnection config r c)
      \<and> countdownTimerRef (scheduleReconnection config r c) = None)
   \<and> (maxAttempts config \<le> attempts (state c) \<and> inFlight c = []
       \<and> (\<forall>e\<in>set events. \<not> restarts e) \<longrightarrow>
      \<not> timerArmed (hookRun config (scheduleReconnection config r c) events))
   \<and> startReconnection config r' c' =
       scheduleReconnection config r'
         (c'\<lparr>state := (state c')\<lparr>attempts := 0, nextDelay := initialDelay config,
                                 maxAttemptsReached := False\<rparr>\<rparr>)
   \<and> (0 < maxAttempts config \<longrightarrow>
        attempts (state (startReconnection config r' c')) = 1
        \<and> \<not> maxAttemptsReached (state (startReconnection config r' c'))
        \<and> timerArmed (startReconnection config r' c'))
   \<and> attempts (state (forceReconnect config t c')) = 0
   \<and> \<not> maxAttemptsReached (state (forceReconnect config t c'))"
proof (intro conjI impI)
  assume m: "maxAttempts config \<le> attempts (state c)"
  show "maxAttemptsReached (state (scheduleReconnection config r c))"
    "\<not> isReconnecting (state (scheduleReconnection config r c))"
    "\<not> timerArmed (scheduleReconnection config r c)"
    "countdownTimerRef (scheduleReconnection config r c) = None"
    using scheduleReconnection_at_max [OF m, of r] by (simp_all add: timerArmed_def)
next
  assume h: "maxAttempts config \<le> attempts (state c) \<and> inFlight c = []
       \<and> (\<forall>e\<in>set events. \<not> restarts e)"
  then have "reconnectTimerRef (scheduleReconnection config r c) = None"
    "inFlight (scheduleReconnection config r c) = []"
    using scheduleReconnection_at_max [of config c r] by simp_all
  then show "\<not> timerArmed (hookRun config (scheduleReconnection config r c) events)"
    using quiet_run [of "scheduleReconnection config r c" events config] h
    by (simp add: timerArmed_def)
next
  show "startReconnection config r' c' =
       scheduleReconnection config r'
         (c'\<lparr>state := (state c')\<lparr>attempts := 0, nextDelay := initialDelay config,
                                 maxAttemptsReached := False\<rparr>\<rparr>)"
    by (simp add: startReconnection_def)
next
  assume p: "0 < maxAttempts config"
  show "attempts (state (startReconnection config r' c')) = 1"
    "\<not> maxAttemptsReached (state (startReconnection config r' c'))"
    "timerArmed (startReconnection config r' c')"
    using startReconnection_fresh [OF p, of r' c'] by (simp_all add: timerArmed_def)
next
  show "attempts (state (forceReconnect config t c')) = 0"
    "\<not> maxAttemptsReached (state (forceReconnect config t c'))"
    by (simp_all add: forceReconnect_def clearTimers_def Let_def)
qed

text \<open>A controller that has used up the ten default attempts.\<close>

definition exhausted :: Controller where
  "exhausted = (initialController DEFAULT_CONFIG Websocket)
     \<lparr>state := (state (initialController DEFAULT_CONFIG Websocket))\<lparr>attempts := 10\<rparr>\<rparr>"

theorem max_attempts_stops_scheduling_witness:
  "maxAttempts DEFAULT_CONFIG \<le> attempts (state exhausted) \<and> inFlight exhausted = []
   \<and> list_all (\<lambda>e. \<not> restarts e)
         [CountdownTick 1000, TimerFires, AttemptRejects 0 0, StopReconnection,
          ResetReconnection, BecameConnected, TransportChanged Sse, AttemptResolves 0]
   \<and> maxAttemptsReached (state (scheduleReconnection DEFAULT_CONFIG 0 exhausted))
   \<and> \<not> timerArmed (hookRun DEFAULT_CONFIG (scheduleReconnection DEFAULT_CONFIG 0 exhausted)
         [CountdownTick 1000, TimerFires, AttemptRejects 0 0, StopReconnection,
          ResetReconnection, BecameConnected, TransportChanged Sse, AttemptResolves 0])
   \<and> 0 < maxAttempts DEFAULT_CONFIG
   \<and> attempts (state (startReconnection DEFAULT_CONFIG 0 exhausted)) = 1
   \<and> timerArmed (startReconnection DEFAULT_CONFIG 0 exhausted)"
  using max_attempts_stops_scheduling [of DEFAULT_CONFIG exhausted 0
      "[CountdownTick 1000, TimerFires, AttemptRejects 0 0, StopReconnection,
        ResetReconnection, BecameConnected, TransportChanged Sse, AttemptResolves 0]" 0 exhausted]
  by code_simp

text \<open>
  The claim as stated fails when a second attempt is still in flight. With a maximum of
  one attempt: start, the timer fires, start again, the second timer fires, the first
  attempt fails and scheduling sets the flag. After \<open>resetReconnection\<close> the failure of
  the second attempt arms a timer, and neither \<open>startReconnection\<close> nor
  \<open>forceReconnect\<close> was called.
\<close>

definition raceConfig :: ReconnectConfig where
  "raceConfig = DEFAULT_CONFIG\<lparr>maxAttempts := 1\<rparr>"

definition raceState :: Controller where
  "raceState = hookRun raceConfig (initialController raceConfig Websocket)
     [StartReconnection 0, TimerFires, StartReconnection 0, TimerFires, AttemptRejects 0 0]"

theorem max_attempts_counterexample:
  "maxAttempts raceConfig \<le> attempts (state raceState)
   \<and> maxAttemptsReached (state raceState) \<and> \<not> isReconnecting (state raceState)
   \<and> \<not> timerArmed raceState
   \<and> \<not> restarts ResetReconnection \<and> \<not> restarts (AttemptRejects 0 0)
   \<and> timerArmed (hookRun raceConfig raceState [ResetReconnection, AttemptRejects 0 0])"
  by code_simp

section \<open>Forced reconnection\<close>

text \<open>
  C6. From every controller state \<open>forceReconnect\<close> clears both timers, sets attempts to
  0, the max-attempts-reached flag to false and the next delay to the initial delay, and
  starts an immediate attempt with the transport type the hook was given. If that attempt
  resolves nothing more happens; if it rejects, \<open>startReconnection\<close> runs, which (with a
  positive maximum) arms the timer for the first scheduled attempt.
\<close>

theorem forceReconnect_resets:
  "reconnectTimerRef (forceReconnect config t c) = None
   \<and> countdownTimerRef (forceReconnect config t c) = None
   \<and> attempts (state (forceReconnect config t c)) = 0
   \<and> \<not> maxAttemptsReached (state (forceReconnect config t c))
   \<and> nextDelay (state (forceReconnect config t c)) = initialDelay config
   \<and> \<not> isReconnecting (state (forceReconnect config t c))
   \<and> countdown (state (forceReconnect config t c)) = 0
   \<and> currentTransport (state (forceReconnect config t c)) = currentTransport (state c)
   \<and> inFlight (forceReconnect config t c) = inFlight c @ [FromForce t]
   \<and> attemptResolves (length (inFlight c)) (forceReconnect config t c)
       = (forceReconnect config t c)\<lparr>inFlight := inFlight c\<rparr>
   \<and> attemptRejects config r (length (inFlight c)) (forceReconnect config t c)
       = startReconnection config r ((forceReconnect config t c)\<lparr>inFlight := inFlight c\<rparr>)
   \<and> (0 < maxAttempts config \<longrightarrow>
        reconnectTimerRef (attemptRejects config r (length (inFlight c)) (forceReconnect config t c))
          = Some (initialDelay config, getNextTransport (currentTransport (state c)))
        \<and> isReconnecting (state (attemptRejects config r (length (inFlight c))
                                   (forceReconnect config t c)))
        \<and> attempts (state (attemptRejects config r (length (inFlight c))
                              (forceReconnect config t c))) = 1)"
proof -
  let ?f = "forceReconnect config t c"
  have basic: "reconnectTimerRef ?f = None" "countdownTimerRef ?f = None"
    "attempts (state ?f) = 0" "\<not> maxAttemptsReached (state ?f)"
    "nextDelay (state ?f) = initialDelay config" "\<not> isReconnecting (state ?f)"
    "countdown (state ?f) = 0" "currentTransport (state ?f) = currentTransport (state c)"
    "inFlight ?f = inFlight c @ [FromForce t]"
    by (simp_all add: forceReconnect_def clearTimers_def Let_def)
  have res: "attemptResolves (length (inFlight c)) ?f = ?f\<lparr>inFlight := inFlight c\<rparr>"
    by (simp add: attemptResolves_def basic)
  have rej: "attemptRejects config r (length (inFlight c)) ?f
       = startReconnection config r (?f\<lparr>inFlight := inFlight c\<rparr>)"
    by (simp add: attemptRejects_def basic Let_def)
  have sched: "0 < maxAttempts config \<longrightarrow>
        reconnectTimerRef (attemptRejects config r (length (inFlight c)) ?f)
          = Some (initialDelay config, getNextTransport (currentTransport (state c)))
        \<and> isReconnecting (state (attemptRejects config r (length (inFlight c)) ?f))
        \<and> attempts (state (attemptRejects config r (length (inFlight c)) ?f)) = 1"
    using startReconnection_fresh [of config r "?f\<lparr>inFlight := inFlight c\<rparr>"] basic(8)
    by (simp only: rej) simp
  show ?thesis using basic res rej sched by blast
qed

theorem forceReconnect_resets_witness:
  "0 < maxAttempts DEFAULT_CONFIG
   \<and> attempts (state (forceReconnect DEFAULT_CONFIG Sse exhausted)) = 0
   \<and> reconnectTimerRef (attemptRejects DEFAULT_CONFIG 0 (length (inFlight exhausted))
        (forceReconnect DEFAULT_CONFIG Sse exhausted)) = Some (1000, Sse)"
  using forceReconnect_resets [of DEFAULT_CONFIG Sse exhausted 0]
  by code_simp

section \<open>Strings and values of the platform\<close>

text \<open>
  A JavaScript string is a sequence of UTF-16 code units; a code unit is a number below
  65536. \<open>js\<close> turns a literal of the theory into such a string.
\<close>

type_synonym jsstring = "nat list"

definition js :: "string \<Rightarrow> jsstring" where
  "js s = map of_char s"

text \<open>
  A number is an integer, a number read from a literal with a fraction or an exponent
  (kept as the text of the literal: floating point is not modelled), or \<open>NaN\<close>.
\<close>

datatype jsnumber = NInt int | NDecimal jsstring | NNaN

text \<open>
  Values that JSON text can denote, and that message objects are made of. An object is
  the list of its own properties; the order of the list is the order of insertion.
\<close>

datatype jsval =
    JNull
  | JBool bool
  | JNum jsnumber
  | JStr jsstring
  | JArr "jsval list"
  | JObj "(jsstring \<times> jsval) list"

text \<open>Reading a property of a value; \<open>None\<close> is \<open>undefined\<close>.\<close>

fun getProp :: "jsval \<Rightarrow> jsstring \<Rightarrow> jsval option" where
  "getProp (JObj kvs) k = map_of kvs k"
| "getProp v k = None"

text \<open>Writing a property of an object: an existing property keeps its place.\<close>

fun putProp :: "(jsstring \<times> jsval) list \<Rightarrow> jsstring \<Rightarrow> jsval \<Rightarrow> (jsstring \<times> jsval) list" where
  "putProp [] k v = [(k, v)]"
| "putProp ((k', v') # kvs) k v = (if k' = k then (k, v) # kvs else (k', v') # putProp kvs k v)"

type_synonym Message = jsval

section \<open>The session coordinator (context/SessionContext.tsx)\<close>

record AppConfig =
  preferred :: TransportType
  enableFallback :: bool
  maxMessages :: int

record SessionConfig =
  practiceId :: int
  conversationId :: jsstring
  patientId :: "jsstring option"
  timezone :: jsstring
  authToken :: "jsstring option"

record ConnectionState =
  status :: ConnectionStatus
  transport :: TransportType
  latency :: "real option"
  error :: "jsstring option"
  reconnectAttempts :: int
  reconnectDelay :: real

record SpeakProposal =
  proposalId :: jsval
  summary :: jsval
  timestamp :: "jsval option"

record SessionState =
  sessionConfig :: "SessionConfig option"
  messages :: "Message list"
  speakProposals :: "SpeakProposal list"
  connectionState :: ConnectionState
  isManualDisconnectRef :: bool
  lastConnectionAttemptRef :: int
  previousStatusRef :: ConnectionStatus
  reconnectHook :: Controller


text \<open>\<open>Array.prototype.slice(start)\<close> with one argument.\<close>

definition slice :: "'a list \<Rightarrow> int \<Rightarrow> 'a list" where
  "slice xs start =
     (let len = int (length xs);
          k = (if start < 0 then max (len + start) 0 else min start len)
      in drop (nat k) xs)"

definition addMessage :: "AppConfig \<Rightarrow> Message \<Rightarrow> SessionState \<Rightarrow> SessionState" where
  "addMessage app message st =
     (let newMessages = messages st @ [message];
          st1 = st\<lparr>messages :=
                  (if int (length newMessages) > maxMessages app
                   then slice newMessages (int (length newMessages) - maxMessages app)
                   else newMessages)\<rparr>
      in if getProp message (js ''type'') = Some (JStr (js ''speak_proposal''))
            \<and> getProp message (js ''proposalId'') \<noteq> None \<and> getProp message (js ''summary'') \<noteq> None
         then st1\<lparr>speakProposals := speakProposals st1 @
                  [\<lparr>proposalId = the (getProp message (js ''proposalId'')),
                    summary = the (getProp message (js ''summary'')),
                    timestamp = getProp message (js ''timestamp'')\<rparr>]\<rparr>
         else st1)"

definition addMessages :: "AppConfig \<Rightarrow> Message list \<Rightarrow> SessionState \<Rightarrow> SessionState" where
  "addMessages app ms st = foldl (\<lambda>s m. addMessage app m s) st ms"

lemma messages_addMessage:
  "messages (addMessage app m st) =
     (if int (length (messages st)) + 1 > maxMessages app
      then slice (messages st @ [m]) (int (length (messages st)) + 1 - maxMessages app)
      else messages st @ [m])"
  by (simp add: addMessage_def Let_def add.commute)

lemma messages_addMessage_drop:
  assumes "0 \<le> maxMessages app"
  shows "messages (addMessage app m st)
     = drop (length (messages st @ [m]) - nat (maxMessages app)) (messages st @ [m])"
proof (cases "int (length (messages st)) + 1 > maxMessages app")
  case True
  then have "nat (int (length (messages st)) + 1 - maxMessages app)
      = Suc (length (messages st)) - nat (maxMessages app)"
    using assms by linarith
  then show ?thesis using True assms
    by (simp add: messages_addMessage slice_def Let_def min_def)
next
  case False
  then have "Suc (length (messages st)) - nat (maxMessages app) = 0" by linarith
  then show ?thesis using False by (simp add: messages_addMessage)
qed

lemma drop_drop_append:
  "drop (length (drop (length xs - n) xs @ [m]) - n) (drop (length xs - n) xs @ [m])
     = drop (length (xs @ [m]) - n) (xs @ [m])"
proof (cases "length xs \<le> n")
  case True
  then show ?thesis by simp
next
  case False
  then have "length (drop (length xs - n) xs) = n" by simp
  moreover have "Suc (length xs) - n = Suc (length xs - n)" using False by simp
  ultimately show ?thesis using False
    by (cases n) (simp_all add: drop_Suc tl_drop)
qed

lemma messages_addMessages:
  assumes "0 \<le> maxMessages app"
  shows "length (messages st) \<le> nat (maxMessages app) \<Longrightarrow>
    messages (addMessages app ms st)
      = drop (length (messages st @ ms) - nat (maxMessages app)) (messages st @ ms)"
proof (induction ms rule: rev_induct)
  case Nil
  then show ?case by (simp add: addMessages_def)
next
  case (snoc m ms)
  let ?n = "nat (maxMessages app)"
  let ?xs = "messages st @ ms"
  have "messages (addMessages app (ms @ [m]) st)
      = messages (addMessage app m (addMessages app ms st))"
    by (simp add: addMessages_def)
  also have "\<dots> = drop (length (messages (addMessages app ms st) @ [m]) - ?n)
                      (messages (addMessages app ms st) @ [m])"
    using messages_addMessage_drop [OF assms] by simp
  also have "\<dots> = drop (length (drop (length ?xs - ?n) ?xs @ [m]) - ?n)
                      (drop (length ?xs - ?n) ?xs @ [m])"
    using snoc by simp
  also have "\<dots> = drop (length (?xs @ [m]) - ?n) (?xs @ [m])"
    by (rule drop_drop_append)
  finally show ?case by simp
qed


lemma length_messages_addMessage:
  "0 \<le> maxMessages app \<Longrightarrow> int (length (messages (addMessage app m st))) \<le> max 1 (maxMessages app)
     \<and> (0 < maxMessages app \<longrightarrow> int (length (messages (addMessage app m st))) \<le> maxMessages app)"
  by (auto simp: messages_addMessage slice_def Let_def)

text \<open>
  C9. With a positive maximum, after every append the list holds at most the maximum
  number of messages, the appended message is its last element, and the list is a suffix
  of the old list followed by the new message. After a sequence of appends to a list
  within the bound, the list is exactly the last messages of all those appended so far,
  as many as the maximum allows, in their order and unchanged.
\<close>

theorem message_buffer_bounded:
  "0 < maxMessages app \<longrightarrow>
     int (length (messages (addMessage app m st))) \<le> maxMessages app
     \<and> messages (addMessage app m st) \<noteq> []
     \<and> last (messages (addMessage app m st)) = m
     \<and> suffix (messages (addMessage app m st)) (messages st @ [m])
     \<and> (int (length (messages st)) \<le> maxMessages app \<longrightarrow>
          int (length (messages (addMessages app ms st))) \<le> maxMessages app
          \<and> suffix (messages (addMessages app ms st)) (messages st @ ms)
          \<and> messages (addMessages app ms st)
               = drop (length (messages st @ ms) - nat (maxMessages app)) (messages st @ ms))"
proof (intro impI conjI)
  assume pos: "0 < maxMessages app"
  then have nn: "0 \<le> maxMessages app" by simp
  let ?n = "nat (maxMessages app)"
  have eq: "messages (addMessage app m st)
      = drop (length (messages st @ [m]) - ?n) (messages st @ [m])"
    using messages_addMessage_drop [OF nn] .
  show "int (length (messages (addMessage app m st))) \<le> maxMessages app"
    using length_messages_addMessage [OF nn] pos by simp
  have lt: "length (messages st @ [m]) - ?n < length (messages st @ [m])"
    using pos by simp
  then show ne: "messages (addMessage app m st) \<noteq> []"
    by (simp only: eq) simp
  show "last (messages (addMessage app m st)) = m"
    using lt by (simp only: eq last_drop) simp
  show "suffix (messages (addMessage app m st)) (messages st @ [m])"
    by (simp only: eq suffix_drop)
  assume le: "int (length (messages st)) \<le> maxMessages app"
  then have le': "length (messages st) \<le> ?n" by linarith
  show run: "messages (addMessages app ms st)
               = drop (length (messages st @ ms) - ?n) (messages st @ ms)"
    using messages_addMessages [OF nn le'] .
  show "suffix (messages (addMessages app ms st)) (messages st @ ms)"
    by (simp only: run suffix_drop)
  have "length (messages (addMessages app ms st)) \<le> ?n"
    by (simp only: run length_drop)
  then show "int (length (messages (addMessages app ms st))) \<le> maxMessages app"
    using nn by linarith
qed


definition initialSessionState :: "AppConfig \<Rightarrow> ReconnectConfig \<Rightarrow> SessionState" where
  "initialSessionState app config =
     \<lparr>sessionConfig = None, messages = [], speakProposals = [],
      connectionState = \<lparr>status = Closed, transport = preferred app, latency = None,
                         error = None, reconnectAttempts = 0,
                         reconnectDelay = initialDelay config\<rparr>,
      isManualDisconnectRef = False, lastConnectionAttemptRef = 0,
      previousStatusRef = Closed,
      reconnectHook = initialController config (preferred app)\<rparr>"











section \<open>Error classification (utils/security.ts, utils/errorHandler.ts)\<close>


definition canonicalize :: "nat \<Rightarrow> nat" where
  "canonicalize c = (if 97 \<le> c \<and> c \<le> 122 then c - 32 else c)"

definition sameUnit :: "bool \<Rightarrow> nat \<Rightarrow> nat \<Rightarrow> bool" where
  "sameUnit ignoreCase p c = (if ignoreCase then canonicalize p = canonicalize c else p = c)"

text \<open>The dot matches every code unit but the line terminators.\<close>

definition isLineTerminator :: "nat \<Rightarrow> bool" where
  "isLineTerminator c = (c = 10 \<or> c = 13 \<or> c = 8232 \<or> c = 8233)"

fun matchesAt :: "bool \<Rightarrow> jsstring \<Rightarrow> jsstring \<Rightarrow> bool" where
  "matchesAt i [] s = True"
| "matchesAt i (p # ps) [] = False"
| "matchesAt i (p # ps) (c # cs) = (sameUnit i p c \<and> matchesAt i ps cs)"


fun dotStarThen :: "bool \<Rightarrow> jsstring \<Rightarrow> jsstring \<Rightarrow> bool" where
  "dotStarThen i q [] = matchesAt i q []"
| "dotStarThen i q (c # cs) =
     (matchesAt i q (c # cs) \<or> (\<not> isLineTerminator c \<and> dotStarThen i q cs))"

fun searchSequence :: "bool \<Rightarrow> jsstring \<Rightarrow> jsstring \<Rightarrow> jsstring \<Rightarrow> bool" where
  "searchSequence i p q [] = (matchesAt i p [] \<and> dotStarThen i q (drop (length p) []))"
| "searchSequence i p q (c # cs) =
     ((matchesAt i p (c # cs) \<and> dotStarThen i q (drop (length p) (c # cs)))
      \<or> searchSequence i p q cs)"







record HandledError =
  message :: jsstring
  userMessage :: jsstring
  isAuthError :: bool
  isNetworkErr :: bool
  shouldRetry :: bool
  shouldPreventReconnection :: bool












lemma searchSequence_step:
  "searchSequence i p q s =
     ((matchesAt i p s \<and> dotStarThen i q (drop (length p) s))
      \<or> (s \<noteq> [] \<and> searchSequence i p q (tl s)))"
  by (cases s) auto












text \<open>Concrete inputs: a small buffer, and a session whose connection is open.\<close>

definition smallApp :: AppConfig where
  "smallApp = \<lparr>preferred = Websocket, enableFallback = True, maxMessages = 2\<rparr>"

definition exampleConfig :: SessionConfig where
  "exampleConfig = \<lparr>practiceId = 1, conversationId = js ''c1'', patientId = None,
                     timezone = js ''UTC'', authToken = None\<rparr>"

definition openSession :: SessionState where
  "openSession = (initialSessionState smallApp DEFAULT_CONFIG)
     \<lparr>sessionConfig := Some exampleConfig, previousStatusRef := Open,
      lastConnectionAttemptRef := 1000\<rparr>"




theorem message_buffer_bounded_witness:
  "0 < maxMessages smallApp
   \<and> int (length (messages openSession)) \<le> maxMessages smallApp
   \<and> last (messages (addMessage smallApp (JBool True) openSession)) = JBool True
   \<and> messages (addMessages smallApp [JStr (js ''a''), JStr (js ''b''), JStr (js ''c'')] openSession)
       = [JStr (js ''b''), JStr (js ''c'')]"
  using message_buffer_bounded [of smallApp "JBool True" openSession
      "[JStr (js ''a''), JStr (js ''b''), JStr (js ''c'')]"]
  by code_simp

end
